theory Spec2Isabelle
  imports Main
begin

section \<open>The format registry of skbio.io (\<^verbatim>\<open>skbio/io/_registry.py\<close>)\<close>

text \<open>
  The module keeps two process-wide dictionaries, \<^verbatim>\<open>_formats\<close> and \<^verbatim>\<open>_identifiers\<close>,
  fills them through decorators, and dispatches \<^verbatim>\<open>read\<close>, \<^verbatim>\<open>write\<close> and
  \<^verbatim>\<open>guess_format\<close> on their contents. The embedding passes the two dictionaries as a
  record, returns the record from everything that mutates it, and turns every
  \<^verbatim>\<open>raise\<close> into the left summand of a sum.
\<close>

subsection \<open>Names, classes, errors\<close>

text \<open>
  A format name is a string. A class is known by its name; the key \<^verbatim>\<open>None\<close> that the
  source uses for "no class" (a reader that returns a generator) is \<open>None\<close> here as well.
\<close>

type_synonym fmt = string
type_synonym cls = "string option"

text \<open>
  The exceptions of the module. Each constructor is an exception class together with the
  values its message interpolates; the rendering of the message into one string is left
  out. \<open>AttributeError\<close> is what \<^verbatim>\<open>cls.__name__\<close> raises when \<^verbatim>\<open>cls\<close> is
  \<^verbatim>\<open>None\<close>. \<open>Raised\<close> is any exception that a registered function raises.
\<close>

datatype error =
    DuplicateRegistrationError_identifier fmt
  | DuplicateRegistrationError_rw fmt string string
  | TypeError_arguments string nat
  | TypeError_not_an_iterator
  | AttributeError
  | FormatIdentificationError_cannot_guess
  | FormatIdentificationError_ambiguous "fmt list"
  | FileFormatError_no_reader fmt string
  | FileFormatError_no_writer fmt
  | ValueError_format_and_into_none
  | ValueError_no_format
  | ValueError_no_into
  | Raised string

subsection \<open>Values and registered functions\<close>

text \<open>
  A generator, seen from the code that pulls from it: the next pull yields an element and
  leaves the rest, or ends the generator (\<^verbatim>\<open>StopIteration\<close>), or raises. It is a codatatype,
  so a generator that never ends is a value too. Elements are strings (records of a file).
\<close>

codatatype gen = Yield string gen | Stop | Raise error

text \<open>
  The Python values that pass through the dispatch functions: \<^verbatim>\<open>None\<close>, an instance of
  a named class with some payload, or a generator object.
\<close>

datatype pyval = PyNone | Instance string string | Generator gen

text \<open>\<^verbatim>\<open>obj.__class__\<close>, as the name of the class.\<close>

fun class_of :: "pyval \<Rightarrow> string" where
  "class_of PyNone = ''NoneType''"
| "class_of (Instance c p) = c"
| "class_of (Generator g) = ''generator''"

text \<open>
  An identifier is called as \<^verbatim>\<open>test(fh)\<close> and, by its documented interface, returns
  \<^verbatim>\<open>True\<close> or \<^verbatim>\<open>False\<close> and does not close the file: it sees the contents of the
  file and the read position, and returns its verdict and the position where it left the
  file.

  A reader is called as \<^verbatim>\<open>reader(fh, *args, **kwargs)\<close> and a writer as
  \<^verbatim>\<open>writer(obj, fh, *args, **kwargs)\<close>. Both are stored in the same dictionary by the
  same decorator, so they have one type: a function of the arguments other than the file
  (for a writer the object comes first), the contents of the file and the position; it
  returns a value or raises, and leaves the file with new contents and a new position.
  By the documented interface it does not close the file.
\<close>

type_synonym identifier_fn = "string \<Rightarrow> nat \<Rightarrow> bool \<times> nat"
type_synonym func = "pyval list \<Rightarrow> string \<Rightarrow> nat \<Rightarrow> (error + pyval) \<times> string \<times> nat"

subsection \<open>The registry\<close>

text \<open>
  \<^verbatim>\<open>_formats\<close> maps a format to a dictionary from classes to a dictionary from the role
  names \<^verbatim>\<open>'reader'\<close> and \<^verbatim>\<open>'writer'\<close> to functions. It is only looked up and updated by
  key, so it is a map. \<^verbatim>\<open>_identifiers\<close> is iterated by \<^verbatim>\<open>guess_format\<close>, so it is an
  association list, in insertion order.
\<close>

type_synonym format_class = "string \<rightharpoonup> func"
type_synonym format_dict = "cls \<rightharpoonup> format_class"

record registry =
  formats :: "fmt \<rightharpoonup> format_dict"
  identifiers :: "(fmt \<times> identifier_fn) list"

definition empty_registry :: registry where
  "empty_registry = \<lparr>formats = Map.empty, identifiers = []\<rparr>"

text \<open>
  \<^verbatim>\<open>register_identifier(fmt)\<close> returns a decorator; \<open>register_identifier fmt\<close> is that
  decorator. It returns the function or raises, and the registry after the call.
\<close>

definition register_identifier ::
  "fmt \<Rightarrow> identifier_fn \<Rightarrow> registry \<Rightarrow> (error + identifier_fn) \<times> registry" where
  "register_identifier fmt identifier reg =
     (if fmt \<in> set (map fst (identifiers reg))
      then (Inl (DuplicateRegistrationError_identifier fmt), reg)
      else (Inr identifier, reg\<lparr>identifiers := identifiers reg @ [(fmt, identifier)]\<rparr>))"

text \<open>
  The inner \<^verbatim>\<open>decorator\<close> of \<^verbatim>\<open>_rw_decorator\<close>, with the variables it closes over as
  parameters. The two \<^verbatim>\<open>{}\<close> insertions happen before the test of \<^verbatim>\<open>name\<close>, so the
  registry returned with a failure is the one that holds them. The message of the
  failure evaluates \<^verbatim>\<open>cls.__name__\<close> before the exception is built.
\<close>

definition decorator ::
  "string \<Rightarrow> fmt \<Rightarrow> cls \<Rightarrow> func \<Rightarrow> registry \<Rightarrow> (error + func) \<times> registry" where
  "decorator name fmt cls func reg =
     (let formats1 = (if formats reg fmt = None then (formats reg)(fmt \<mapsto> Map.empty)
                      else formats reg);
          format_dict = (case formats1 fmt of None \<Rightarrow> Map.empty | Some d \<Rightarrow> d);
          format_dict1 = (if format_dict cls = None then format_dict(cls \<mapsto> Map.empty)
                          else format_dict);
          format_class = (case format_dict1 cls of None \<Rightarrow> Map.empty | Some c \<Rightarrow> c)
      in if format_class name = None
         then (Inr func,
               reg\<lparr>formats := formats1(fmt \<mapsto> format_dict1(cls \<mapsto> format_class(name \<mapsto> func)))\<rparr>)
         else (Inl (case cls of
                      None \<Rightarrow> AttributeError
                    | Some c \<Rightarrow> DuplicateRegistrationError_rw fmt name c),
               reg\<lparr>formats := formats1(fmt \<mapsto> format_dict1)\<rparr>))"

text \<open>
  \<^verbatim>\<open>_rw_decorator(name, fmt, *args)\<close>: the arity check, then the decorator. \<open>args\<close> is
  the tuple of the optional positional arguments.
\<close>

definition rw_decorator ::
  "string \<Rightarrow> fmt \<Rightarrow> cls list \<Rightarrow>
   error + (func \<Rightarrow> registry \<Rightarrow> (error + func) \<times> registry)" where
  "rw_decorator name fmt args =
     (let arg_len = length args
      in if arg_len > 1 then Inl (TypeError_arguments name arg_len)
         else Inr (decorator name fmt (if arg_len = 1 then args ! 0 else None)))"

definition register_reader ::
  "fmt \<Rightarrow> cls list \<Rightarrow> error + (func \<Rightarrow> registry \<Rightarrow> (error + func) \<times> registry)" where
  "register_reader fmt cls = rw_decorator ''reader'' fmt cls"

definition register_writer ::
  "fmt \<Rightarrow> cls list \<Rightarrow> error + (func \<Rightarrow> registry \<Rightarrow> (error + func) \<times> registry)" where
  "register_writer fmt cls = rw_decorator ''writer'' fmt cls"

text \<open>
  \<^verbatim>\<open>@register_reader(fmt, cls)\<close> above a function: the decorator factory is called, and
  if it returns, its decorator is applied to the function.
\<close>

definition decorate ::
  "error + (func \<Rightarrow> registry \<Rightarrow> (error + func) \<times> registry) \<Rightarrow>
   func \<Rightarrow> registry \<Rightarrow> (error + func) \<times> registry" where
  "decorate d func reg = (case d of Inl e \<Rightarrow> (Inl e, reg) | Inr dec \<Rightarrow> dec func reg)"

subsection \<open>Lookup\<close>

definition get_identifier :: "fmt \<Rightarrow> registry \<Rightarrow> identifier_fn option" where
  "get_identifier fmt reg =
     (if fmt \<in> set (map fst (identifiers reg)) then map_of (identifiers reg) fmt else None)"

definition rw_getter :: "string \<Rightarrow> fmt \<Rightarrow> cls list \<Rightarrow> registry \<Rightarrow> error + func option" where
  "rw_getter name fmt args reg =
     (let arg_len = length args
      in if arg_len > 1 then Inl (TypeError_arguments name arg_len)
         else let cls = (if arg_len = 1 then args ! 0 else None)
              in Inr (case formats reg fmt of
                        None \<Rightarrow> None
                      | Some format_dict \<Rightarrow>
                          (case format_dict cls of
                             None \<Rightarrow> None
                           | Some format_class \<Rightarrow> format_class name)))"

definition get_reader :: "fmt \<Rightarrow> cls list \<Rightarrow> registry \<Rightarrow> error + func option" where
  "get_reader fmt cls reg = rw_getter ''reader'' fmt cls reg"

definition get_writer :: "fmt \<Rightarrow> cls list \<Rightarrow> registry \<Rightarrow> error + func option" where
  "get_writer fmt cls reg = rw_getter ''writer'' fmt cls reg"

subsection \<open>File handles\<close>

text \<open>
  A file handle: the contents of the file, the read position, how many times
  \<^verbatim>\<open>close()\<close> was called on it, and the registered functions it was passed to, in
  order. An identifier is recorded with its format, the position it found the handle at
  and the verdict it returned; a reader or writer with the position it found the handle at.
\<close>

datatype call = Identifier_call fmt nat bool | Reader_call nat | Writer_call nat

record filehandle =
  contents :: string
  pos :: nat
  close_calls :: nat
  passed_to :: "call list"

text \<open>
  What a caller passes as \<^verbatim>\<open>fp\<close>: a file path or an open file object. The file system
  is not modelled: a path stands for the contents of the file it names.
\<close>

datatype source = Filepath string | Fileobject filehandle

definition seek :: "filehandle \<Rightarrow> nat \<Rightarrow> filehandle" where
  "seek fh offset = fh\<lparr>pos := offset\<rparr>"

definition close :: "filehandle \<Rightarrow> filehandle" where
  "close fh = fh\<lparr>close_calls := Suc (close_calls fh)\<rparr>"

text \<open>
  Modelled from the spec: \<^verbatim>\<open>_get_filehandle\<close> of \<^verbatim>\<open>skbio/io/util.py\<close>, which is not
  among the sources. Given a path or an open stream (and a mode, which this model leaves
  out) it yields the stream and whether the dispatch layer owns it: a path is opened and
  owned, a stream is borrowed.
\<close>

definition get_filehandle :: "source \<Rightarrow> filehandle \<times> bool" where
  "get_filehandle fp =
     (case fp of
        Filepath c \<Rightarrow> (\<lparr>contents = c, pos = 0, close_calls = 0, passed_to = []\<rparr>, True)
      | Fileobject fh \<Rightarrow> (fh, False))"

text \<open>
  Modelled from the spec: the context manager \<^verbatim>\<open>open_file\<close> of \<^verbatim>\<open>skbio/io/util.py\<close>,
  which is not among the sources. \<^verbatim>\<open>with open_file(fp, mode) as fh: body\<close> acquires the
  stream, runs the body, and on every exit path, normal or failing, closes the stream if
  it was opened from a path.
\<close>

definition open_file :: "source \<Rightarrow> (filehandle \<Rightarrow> 'a \<times> filehandle) \<Rightarrow> 'a \<times> filehandle" where
  "open_file fp body =
     (let (fh, own_fh) = get_filehandle fp;
          (result, fh1) = body fh
      in (result, if own_fh then close fh1 else fh1))"

subsection \<open>Guessing the format\<close>

text \<open>
  The \<^verbatim>\<open>for fmt in _identifiers\<close> loop of \<^verbatim>\<open>guess_format\<close>, over the entries that are
  left, with \<^verbatim>\<open>possibles\<close> and the handle as they are on entry.
\<close>

fun guess_format_loop ::
  "registry \<Rightarrow> cls \<Rightarrow> (fmt \<times> identifier_fn) list \<Rightarrow> fmt list \<Rightarrow> filehandle \<Rightarrow>
   fmt list \<times> filehandle" where
  "guess_format_loop reg cls [] possibles fh = (possibles, fh)"
| "guess_format_loop reg cls ((fmt, test) # rest) possibles fh =
     (if cls \<noteq> None \<and>
         (case formats reg fmt of None \<Rightarrow> True | Some format_dict \<Rightarrow> format_dict cls = None)
      then guess_format_loop reg cls rest possibles fh
      else let (verdict, p) = test (contents fh) (pos fh);
               fh1 = fh\<lparr>pos := p, passed_to := passed_to fh @ [Identifier_call fmt (pos fh) verdict]\<rparr>;
               possibles1 = (if verdict then possibles @ [fmt] else possibles)
           in guess_format_loop reg cls rest possibles1 (seek fh1 0))"

definition guess_format :: "registry \<Rightarrow> source \<Rightarrow> cls \<Rightarrow> (error + fmt) \<times> filehandle" where
  "guess_format reg fp cls =
     open_file fp (\<lambda>fh.
       let (possibles, fh1) = guess_format_loop reg cls (identifiers reg) [] (seek fh 0)
       in (if possibles = [] then Inl FormatIdentificationError_cannot_guess
           else if length possibles > 1
                then Inl (FormatIdentificationError_ambiguous possibles)
                else Inr (possibles ! 0),
           fh1))"

subsection \<open>Reading\<close>

text \<open>
  The generator object that \<^verbatim>\<open>wrapper_generator()\<close> returns: the variables it closes
  over (\<^verbatim>\<open>reader\<close>, \<^verbatim>\<open>args\<close>, \<^verbatim>\<open>is_own\<close>; the handle is passed along) and where its
  frame stands: not started, suspended at the \<^verbatim>\<open>yield\<close> with \<^verbatim>\<open>original\<close> as it is
  now, or finished.
\<close>

datatype frame = Created | Suspended gen | Finished

record wrapper_generator =
  wg_reader :: func
  wg_args :: "pyval list"
  wg_is_own :: bool
  wg_frame :: frame

datatype read_result = Result pyval | Lazy wrapper_generator

definition read ::
  "registry \<Rightarrow> source \<Rightarrow> fmt option \<Rightarrow> cls \<Rightarrow> pyval list \<Rightarrow>
   (error + read_result) \<times> filehandle option" where
  "read reg fp format into args =
     (if format = None \<and> into = None then (Inl ValueError_format_and_into_none, None)
      else
        let (fh, is_own) = get_filehandle fp;
            (guessed, fh1) = (case format of
                                None \<Rightarrow> guess_format reg (Fileobject fh) into
                              | Some f \<Rightarrow> (Inr f, fh))
        in case guessed of
             Inl e \<Rightarrow> (Inl e, Some fh1)
           | Inr format1 \<Rightarrow>
               (case get_reader format1 [into] reg of
                  Inl e \<Rightarrow> (Inl e, Some fh1)
                | Inr None \<Rightarrow>
                    (Inl (FileFormatError_no_reader format1
                            (case into of Some c \<Rightarrow> c | None \<Rightarrow> ''generator'')),
                     Some fh1)
                | Inr (Some reader) \<Rightarrow>
                    if into = None
                    then (Inr (Lazy \<lparr>wg_reader = reader, wg_args = args, wg_is_own = is_own,
                                     wg_frame = Created\<rparr>),
                          Some fh1)
                    else
                      let (result, c, p) = reader args (contents fh1) (pos fh1);
                          fh2 = fh1\<lparr>contents := c, pos := p,
                                    passed_to := passed_to fh1 @ [Reader_call (pos fh1)]\<rparr>
                      in (case result of
                            Inl e \<Rightarrow> (Inl e, Some fh2)
                          | Inr v \<Rightarrow>
                              (Inr (Result v), Some (if is_own then close fh2 else fh2)))))"

text \<open>
  One \<^verbatim>\<open>next()\<close> on the wrapper generator. What the caller gets is an element, the end
  of the sequence, or an exception. The source was written for the Python in which a
  \<^verbatim>\<open>StopIteration\<close> escaping from \<^verbatim>\<open>next(original)\<close> ends the wrapper; the
  \<^verbatim>\<open>finally\<close> clause runs on that path as on any other exception.
\<close>

datatype step = Yielded string | StopIteration | Raises error

text \<open>The \<^verbatim>\<open>finally\<close> clause.\<close>

definition finally_clause :: "wrapper_generator \<Rightarrow> filehandle \<Rightarrow> filehandle" where
  "finally_clause w fh = (if wg_is_own w then close fh else fh)"

text \<open>\<^verbatim>\<open>yield next(original)\<close> inside the \<^verbatim>\<open>try\<close>.\<close>

definition yield_next ::
  "wrapper_generator \<Rightarrow> pyval \<Rightarrow> filehandle \<Rightarrow> step \<times> wrapper_generator \<times> filehandle" where
  "yield_next w original fh =
     (case original of
        Generator g \<Rightarrow>
          (case g of
             Yield x g1 \<Rightarrow> (Yielded x, w\<lparr>wg_frame := Suspended g1\<rparr>, fh)
           | Stop \<Rightarrow> (StopIteration, w\<lparr>wg_frame := Finished\<rparr>, finally_clause w fh)
           | Raise e \<Rightarrow> (Raises e, w\<lparr>wg_frame := Finished\<rparr>, finally_clause w fh))
      | _ \<Rightarrow> (Raises TypeError_not_an_iterator, w\<lparr>wg_frame := Finished\<rparr>, finally_clause w fh))"

definition wrapper_next ::
  "wrapper_generator \<Rightarrow> filehandle \<Rightarrow> step \<times> wrapper_generator \<times> filehandle" where
  "wrapper_next w fh =
     (case wg_frame w of
        Created \<Rightarrow>
          (let (original, c, p) = wg_reader w (wg_args w) (contents fh) (pos fh);
               fh1 = fh\<lparr>contents := c, pos := p,
                        passed_to := passed_to fh @ [Reader_call (pos fh)]\<rparr>
           in case original of
                Inl e \<Rightarrow> (Raises e, w\<lparr>wg_frame := Finished\<rparr>, fh1)
              | Inr v \<Rightarrow> yield_next w v fh1)
      | Suspended g \<Rightarrow> yield_next w (Generator g) fh
      | Finished \<Rightarrow> (StopIteration, w, fh))"

text \<open>The caller pulls \<open>n\<close> times; the generator and the handle afterwards.\<close>

fun pulls :: "nat \<Rightarrow> wrapper_generator \<Rightarrow> filehandle \<Rightarrow> wrapper_generator \<times> filehandle" where
  "pulls 0 w fh = (w, fh)"
| "pulls (Suc n) w fh = (let (s, w1, fh1) = wrapper_next w fh in pulls n w1 fh1)"

subsection \<open>Writing\<close>

definition write_obj ::
  "registry \<Rightarrow> pyval \<Rightarrow> fmt option \<Rightarrow> source option \<Rightarrow> pyval list \<Rightarrow>
   (error + unit) \<times> filehandle option" where
  "write_obj reg obj format into args =
     (case format of
        None \<Rightarrow> (Inl ValueError_no_format, None)
      | Some format1 \<Rightarrow>
          (case into of
             None \<Rightarrow> (Inl ValueError_no_into, None)
           | Some into1 \<Rightarrow>
               (let (result, fh) =
                      open_file into1 (\<lambda>fh.
                        case get_writer format1 [Some (class_of obj)] reg of
                          Inl e \<Rightarrow> (Inl e, fh)
                        | Inr None \<Rightarrow> (Inl (FileFormatError_no_writer format1), fh)
                        | Inr (Some writer) \<Rightarrow>
                            (let (r, c, p) = writer (obj # args) (contents fh) (pos fh);
                                 fh1 = fh\<lparr>contents := c, pos := p,
                                          passed_to := passed_to fh @ [Writer_call (pos fh)]\<rparr>
                             in (case r of Inl e \<Rightarrow> (Inl e, fh1) | Inr v \<Rightarrow> (Inr (), fh1))))
                in (result, Some fh))))"

subsection \<open>Registry states and what the theorems speak of\<close>

text \<open>
  The registry starts empty and changes only through the three decorators. A
  \<open>registration\<close> is one decorated function; \<open>register\<close> is the registry after it,
  whether the decorator returned or raised; \<open>registered rs\<close> is the registry after the
  registrations \<open>rs\<close>, in order, from the empty one.
\<close>

datatype registration =
    Register_identifier fmt identifier_fn
  | Register_reader fmt "cls list" func
  | Register_writer fmt "cls list" func

fun register :: "registration \<Rightarrow> registry \<Rightarrow> registry" where
  "register (Register_identifier fmt g) reg = snd (register_identifier fmt g reg)"
| "register (Register_reader fmt args g) reg = snd (decorate (register_reader fmt args) g reg)"
| "register (Register_writer fmt args g) reg = snd (decorate (register_writer fmt args) g reg)"

definition registered :: "registration list \<Rightarrow> registry" where
  "registered rs = foldl (\<lambda>reg r. register r reg) empty_registry rs"

text \<open>
  The test of \<^verbatim>\<open>guess_format\<close>, \<^verbatim>\<open>fmt in _formats and cls in _formats[fmt]\<close>: the class
  is a key under the format.
\<close>

definition has_class :: "registry \<Rightarrow> fmt \<Rightarrow> cls \<Rightarrow> bool" where
  "has_class reg fmt cls =
     (case formats reg fmt of None \<Rightarrow> False | Some format_dict \<Rightarrow> format_dict cls \<noteq> None)"

text \<open>A function is bound to the role \<open>name\<close> for the format and the class.\<close>

definition bound :: "string \<Rightarrow> registry \<Rightarrow> fmt \<Rightarrow> cls \<Rightarrow> bool" where
  "bound name reg fmt cls =
     (case rw_getter name fmt [cls] reg of Inr (Some f) \<Rightarrow> True | _ \<Rightarrow> False)"

text \<open>The exception is a \<^verbatim>\<open>DuplicateRegistrationError\<close>.\<close>

definition duplicate_registration :: "error \<Rightarrow> bool" where
  "duplicate_registration e =
     (case e of
        DuplicateRegistrationError_identifier fmt \<Rightarrow> True
      | DuplicateRegistrationError_rw fmt name c \<Rightarrow> True
      | _ \<Rightarrow> False)"

text \<open>
  Every class that is a key under a format has a reader or a writer.
\<close>

definition slots_filled :: "registry \<Rightarrow> bool" where
  "slots_filled reg =
     (\<forall>fmt format_dict cls format_class.
        formats reg fmt = Some format_dict \<longrightarrow> format_dict cls = Some format_class \<longrightarrow>
        format_class ''reader'' \<noteq> None \<or> format_class ''writer'' \<noteq> None)"

text \<open>
  \<open>tried reg cls fmt\<close>: the loop of \<^verbatim>\<open>guess_format\<close> does not skip the format.
  \<open>matches reg cls c\<close>: the formats, in the order of \<^verbatim>\<open>_identifiers\<close>, that are not
  skipped and whose identifier says \<^verbatim>\<open>True\<close> on a file with contents \<open>c\<close> read
  from position 0.
\<close>

definition tried :: "registry \<Rightarrow> cls \<Rightarrow> fmt \<Rightarrow> bool" where
  "tried reg cls fmt = (cls = None \<or> has_class reg fmt cls)"

definition matches :: "registry \<Rightarrow> cls \<Rightarrow> string \<Rightarrow> fmt list" where
  "matches reg cls c =
     map fst (filter (\<lambda>(fmt, test). tried reg cls fmt \<and> fst (test c 0)) (identifiers reg))"

text \<open>How many times a handle was passed to a reader.\<close>

fun is_reader_call :: "call \<Rightarrow> bool" where
  "is_reader_call (Reader_call p) = True"
| "is_reader_call _ = False"

definition reader_calls :: "filehandle \<Rightarrow> nat" where
  "reader_calls fh = length (filter is_reader_call (passed_to fh))"

section \<open>Registration\<close>

subsection \<open>A rejected registration\<close>

lemma decorator_failure_unchanged:
  "decorator name fmt cls func reg = (Inl e, reg') \<Longrightarrow> reg' = reg"
  by (auto simp: decorator_def Let_def map_upd_triv split: if_splits option.splits)

lemma decorate_failure_unchanged:
  "decorate (rw_decorator name fmt args) func reg = (Inl e, reg') \<Longrightarrow> reg' = reg"
  by (auto simp: decorate_def rw_decorator_def Let_def dest: decorator_failure_unchanged split: if_splits)

text \<open>
  C7: when registering an identifier, a reader or a writer fails with a
  duplicate-registration failure, the registry after the failed call is the registry before
  it: every binding is unchanged and no entry is added.
\<close>

theorem duplicate_registration_leaves_registry:
  "(register_identifier fmt g reg = (Inl e, reg') \<and> duplicate_registration e \<longrightarrow> reg' = reg) \<and>
   (decorate (register_reader fmt args) func reg = (Inl e, reg') \<and> duplicate_registration e
      \<longrightarrow> reg' = reg) \<and>
   (decorate (register_writer fmt args) func reg = (Inl e, reg') \<and> duplicate_registration e
      \<longrightarrow> reg' = reg)"
  by (auto simp: register_identifier_def register_reader_def register_writer_def
           dest: decorate_failure_unchanged split: if_splits)

theorem duplicate_registration_leaves_registry_witness:
  "register_identifier ''fasta'' (\<lambda>c p. (False, p))
     (registered [Register_identifier ''fasta'' (\<lambda>c p. (True, p))])
     = (Inl (DuplicateRegistrationError_identifier ''fasta''),
        registered [Register_identifier ''fasta'' (\<lambda>c p. (True, p))]) \<and>
   duplicate_registration (DuplicateRegistrationError_identifier ''fasta'') \<and>
   fst (decorate (register_reader ''fasta'' [Some ''Sequence'']) (\<lambda>a c p. (Inr PyNone, c, p))
         (registered [Register_reader ''fasta'' [Some ''Sequence''] (\<lambda>a c p. (Inr PyNone, c, p))]))
     = Inl (DuplicateRegistrationError_rw ''fasta'' ''reader'' ''Sequence'') \<and>
   duplicate_registration (DuplicateRegistrationError_rw ''fasta'' ''reader'' ''Sequence'') \<and>
   snd (decorate (register_reader ''fasta'' [Some ''Sequence'']) (\<lambda>a c p. (Inr PyNone, c, p))
         (registered [Register_reader ''fasta'' [Some ''Sequence''] (\<lambda>a c p. (Inr PyNone, c, p))]))
     = registered [Register_reader ''fasta'' [Some ''Sequence''] (\<lambda>a c p. (Inr PyNone, c, p))]"
proof -
  let ?f = "\<lambda>a c p. (Inr PyNone, c, p) :: (error + pyval) \<times> string \<times> nat"
  let ?R = "registered [Register_reader ''fasta'' [Some ''Sequence''] ?f]"
  let ?e = "DuplicateRegistrationError_rw ''fasta'' ''reader'' ''Sequence''"
  let ?I = "registered [Register_identifier ''fasta'' (\<lambda>c p. (True, p))]"
  let ?d = "DuplicateRegistrationError_identifier ''fasta''"
  have i1: "fst (register_identifier ''fasta'' (\<lambda>c p. (False, p)) ?I) = Inl ?d"
    by (simp add: registered_def register_identifier_def empty_registry_def)
  then have i2: "register_identifier ''fasta'' (\<lambda>c p. (False, p)) ?I
      = (Inl ?d, snd (register_identifier ''fasta'' (\<lambda>c p. (False, p)) ?I))"
    by (metis prod.collapse)
  have i3: "duplicate_registration ?d" by (simp add: duplicate_registration_def)
  from duplicate_registration_leaves_registry[of "''fasta''" "\<lambda>c p. (False, p)" ?I ?d
      "snd (register_identifier ''fasta'' (\<lambda>c p. (False, p)) ?I)"] i2 i3
  have i4: "snd (register_identifier ''fasta'' (\<lambda>c p. (False, p)) ?I) = ?I"
    by blast
  have 1: "fst (decorate (register_reader ''fasta'' [Some ''Sequence'']) ?f ?R) = Inl ?e"
    by (simp add: registered_def decorate_def register_reader_def rw_decorator_def
          decorator_def empty_registry_def)
  have 2: "duplicate_registration ?e" by (simp add: duplicate_registration_def)
  from 1 have 3: "decorate (register_reader ''fasta'' [Some ''Sequence'']) ?f ?R
      = (Inl ?e, snd (decorate (register_reader ''fasta'' [Some ''Sequence'']) ?f ?R))"
    by (metis prod.collapse)
  from duplicate_registration_leaves_registry[of "''fasta''" "\<lambda>c p. (True, p)" ?R ?e
      "snd (decorate (register_reader ''fasta'' [Some ''Sequence'']) ?f ?R)"
      "[Some ''Sequence'']" ?f] 2 3
  have 4: "snd (decorate (register_reader ''fasta'' [Some ''Sequence'']) ?f ?R) = ?R"
    by blast
  from i2 i3 i4 1 2 4 show ?thesis by simp
qed

subsection \<open>Registering into a free slot\<close>

lemma decorator_fresh:
  "rw_getter name fmt [cls] reg = Inr None \<Longrightarrow>
   fst (decorator name fmt cls func reg) = Inr func \<and>
   rw_getter name fmt [cls] (snd (decorator name fmt cls func reg)) = Inr (Some func)"
  by (auto simp: decorator_def rw_getter_def Let_def split: option.splits)

lemma rw_round_trip:
  "rw_getter name fmt args reg = Inr None \<Longrightarrow>
   fst (decorate (rw_decorator name fmt args) func reg) = Inr func \<and>
   rw_getter name fmt args (snd (decorate (rw_decorator name fmt args) func reg)) = Inr (Some func)"
proof -
  assume a: "rw_getter name fmt args reg = Inr None"
  then have len: "\<not> length args > 1"
    by (auto simp: rw_getter_def Let_def split: if_splits)
  define cls where "cls = (if length args = 1 then args ! 0 else None)"
  have g: "\<And>r. rw_getter name fmt args r = rw_getter name fmt [cls] r"
    using len by (simp add: rw_getter_def Let_def cls_def)
  have d: "decorate (rw_decorator name fmt args) func reg = decorator name fmt cls func reg"
    using len by (simp add: decorate_def rw_decorator_def Let_def cls_def)
  from a have "rw_getter name fmt [cls] reg = Inr None" by (simp add: g)
  from decorator_fresh[OF this, of func] show ?thesis by (simp add: g d)
qed

text \<open>
  C6: for a format not yet bound to an identifier, the decorator of
  \<^verbatim>\<open>register_identifier\<close> returns the function it is given, unchanged, and
  \<^verbatim>\<open>get_identifier\<close> then returns that function; the same round trip holds for
  \<^verbatim>\<open>register_reader\<close> with \<^verbatim>\<open>get_reader\<close> and for \<^verbatim>\<open>register_writer\<close> with
  \<^verbatim>\<open>get_writer\<close> on a (format, class) pair whose role is free.
\<close>

theorem registration_round_trip:
  "(fmt \<notin> set (map fst (identifiers reg)) \<longrightarrow>
      fst (register_identifier fmt g reg) = Inr g \<and>
      get_identifier fmt (snd (register_identifier fmt g reg)) = Some g) \<and>
   (get_reader fmt args reg = Inr None \<longrightarrow>
      fst (decorate (register_reader fmt args) func reg) = Inr func \<and>
      get_reader fmt args (snd (decorate (register_reader fmt args) func reg)) = Inr (Some func)) \<and>
   (get_writer fmt args reg = Inr None \<longrightarrow>
      fst (decorate (register_writer fmt args) func reg) = Inr func \<and>
      get_writer fmt args (snd (decorate (register_writer fmt args) func reg)) = Inr (Some func))"
proof (intro conjI impI)
  assume "fmt \<notin> set (map fst (identifiers reg))"
  then show "fst (register_identifier fmt g reg) = Inr g"
    by (simp add: register_identifier_def)
next
  assume a: "fmt \<notin> set (map fst (identifiers reg))"
  then have "map_of (identifiers reg) fmt = None"
    by (simp add: map_of_eq_None_iff)
  with a show "get_identifier fmt (snd (register_identifier fmt g reg)) = Some g"
    by (simp add: register_identifier_def get_identifier_def map_add_def)
next
  assume "get_reader fmt args reg = Inr None"
  then show "fst (decorate (register_reader fmt args) func reg) = Inr func"
    using rw_round_trip[of "''reader''" fmt args reg func]
    by (simp add: get_reader_def register_reader_def)
next
  assume "get_reader fmt args reg = Inr None"
  then show "get_reader fmt args (snd (decorate (register_reader fmt args) func reg)) = Inr (Some func)"
    using rw_round_trip[of "''reader''" fmt args reg func]
    by (simp add: get_reader_def register_reader_def)
next
  assume "get_writer fmt args reg = Inr None"
  then show "fst (decorate (register_writer fmt args) func reg) = Inr func"
    using rw_round_trip[of "''writer''" fmt args reg func]
    by (simp add: get_writer_def register_writer_def)
next
  assume "get_writer fmt args reg = Inr None"
  then show "get_writer fmt args (snd (decorate (register_writer fmt args) func reg)) = Inr (Some func)"
    using rw_round_trip[of "''writer''" fmt args reg func]
    by (simp add: get_writer_def register_writer_def)
qed

theorem registration_round_trip_witness:
  "''fasta'' \<notin> set (map fst (identifiers empty_registry)) \<and>
   fst (register_identifier ''fasta'' (\<lambda>c p. (True, p)) empty_registry) = Inr (\<lambda>c p. (True, p)) \<and>
   get_identifier ''fasta'' (snd (register_identifier ''fasta'' (\<lambda>c p. (True, p)) empty_registry))
     = Some (\<lambda>c p. (True, p)) \<and>
   get_reader ''fasta'' [Some ''Sequence''] empty_registry = Inr None \<and>
   get_reader ''fasta'' [Some ''Sequence'']
     (snd (decorate (register_reader ''fasta'' [Some ''Sequence''])
            (\<lambda>a c p. (Inr PyNone, c, p)) empty_registry))
     = Inr (Some (\<lambda>a c p. (Inr PyNone, c, p))) \<and>
   get_writer ''fasta'' [] empty_registry = Inr None \<and>
   get_writer ''fasta'' []
     (snd (decorate (register_writer ''fasta'' [])
            (\<lambda>a c p. (Inr PyNone, c, p)) empty_registry))
     = Inr (Some (\<lambda>a c p. (Inr PyNone, c, p)))"
proof -
  have i: "''fasta'' \<notin> set (map fst (identifiers empty_registry))"
    by (simp add: empty_registry_def)
  have r: "get_reader ''fasta'' [Some ''Sequence''] empty_registry = Inr None"
    by (simp add: get_reader_def rw_getter_def empty_registry_def)
  have w: "get_writer ''fasta'' [] empty_registry = Inr None"
    by (simp add: get_writer_def rw_getter_def empty_registry_def)
  from i r w
    registration_round_trip[of "''fasta''" empty_registry "\<lambda>c p. (True, p)"
      "[Some ''Sequence'']" "\<lambda>a c p. (Inr PyNone, c, p)"]
    registration_round_trip[of "''fasta''" empty_registry "\<lambda>c p. (True, p)"
      "[]" "\<lambda>a c p. (Inr PyNone, c, p)"]
  show ?thesis by simp
qed

subsection \<open>Registering into a taken slot\<close>

text \<open>
  A second function for a role that is taken is rejected. With a class the exception is
  the \<^verbatim>\<open>DuplicateRegistrationError\<close>; without one, building its message fails first.
  The other role of the same pair is not touched.
\<close>

lemma decorator_duplicate:
  "rw_getter name fmt [cls] reg = Inr (Some f) \<Longrightarrow>
   fst (decorator name fmt cls func reg) =
     Inl (case cls of None \<Rightarrow> AttributeError
          | Some c \<Rightarrow> DuplicateRegistrationError_rw fmt name c)"
  by (auto simp: decorator_def rw_getter_def Let_def split: option.splits)

lemma decorator_other_role:
  "name' \<noteq> name \<Longrightarrow>
   rw_getter name' fmt [cls] (snd (decorator name fmt cls func reg)) =
   rw_getter name' fmt [cls] reg"
  by (auto simp: decorator_def rw_getter_def Let_def split: option.splits)

text \<open>
  C2: a second reader (or writer) for a pair (format, class) that has one is rejected with
  a duplicate-registration failure, also when the class is the "no class" key. Evaluated
  here for the "no class" key, where the code raises \<^verbatim>\<open>AttributeError\<close> instead: once
  with the class left out, once with \<^verbatim>\<open>None\<close> given.
\<close>

theorem duplicate_streaming_reader_raises_AttributeError:
  "fst (decorate (register_reader ''fasta'' []) (\<lambda>a c p. (Inr (Generator Stop), c, p))
         (registered [Register_reader ''fasta'' [] (\<lambda>a c p. (Inr (Generator Stop), c, p))]))
     = Inl AttributeError \<and>
   fst (decorate (register_writer ''fasta'' [None]) (\<lambda>a c p. (Inr PyNone, c, p))
         (registered [Register_writer ''fasta'' [None] (\<lambda>a c p. (Inr PyNone, c, p))]))
     = Inl AttributeError"
  by (simp add: registered_def decorate_def register_reader_def register_writer_def
        rw_decorator_def decorator_def empty_registry_def)

subsection \<open>No class without a reader or a writer\<close>

lemma slots_filled_empty: "slots_filled empty_registry"
  by (simp add: slots_filled_def empty_registry_def)

lemma slots_filled_decorator:
  "slots_filled reg \<Longrightarrow> name = ''reader'' \<or> name = ''writer'' \<Longrightarrow>
   slots_filled (snd (decorator name fmt cls func reg))"
  unfolding slots_filled_def decorator_def Let_def
  by (auto split: if_splits option.splits)

lemma slots_filled_register: "slots_filled reg \<Longrightarrow> slots_filled (register r reg)"
proof (cases r)
  case (Register_identifier fmt g)
  assume "slots_filled reg"
  then show ?thesis using Register_identifier
    by (simp add: register_identifier_def slots_filled_def)
next
  case (Register_reader fmt args g)
  assume "slots_filled reg"
  then show ?thesis using Register_reader slots_filled_decorator[of reg "''reader''"]
    by (simp add: register_reader_def rw_decorator_def decorate_def Let_def)
next
  case (Register_writer fmt args g)
  assume "slots_filled reg"
  then show ?thesis using Register_writer slots_filled_decorator[of reg "''writer''"]
    by (simp add: register_writer_def rw_decorator_def decorate_def Let_def)
qed

lemma slots_filled_foldl:
  "slots_filled reg \<Longrightarrow> slots_filled (foldl (\<lambda>reg r. register r reg) reg rs)"
  by (induction rs arbitrary: reg) (simp_all add: slots_filled_register)

lemma slots_filled_registered: "slots_filled (registered rs)"
  by (simp add: registered_def slots_filled_foldl slots_filled_empty)

lemma has_class_bound:
  "slots_filled reg \<Longrightarrow>
   has_class reg fmt cls = (bound ''reader'' reg fmt cls \<or> bound ''writer'' reg fmt cls)"
  unfolding slots_filled_def has_class_def bound_def rw_getter_def Let_def
  by (fastforce split: option.splits)

text \<open>
  C9: in every registry that registrations produce from the empty one, a (format, class)
  slot that is present has a non-empty role dictionary, with a reader or a writer in it;
  so the test of \<^verbatim>\<open>guess_format\<close>, that the class is a key under the format, holds
  exactly when a reader or a writer is bound to the pair.
\<close>

theorem registered_slots_filled:
  "(\<forall>format_dict format_class.
      formats (registered rs) fmt = Some format_dict \<and> format_dict cls = Some format_class \<longrightarrow>
      format_class \<noteq> Map.empty \<and>
      (format_class ''reader'' \<noteq> None \<or> format_class ''writer'' \<noteq> None)) \<and>
   has_class (registered rs) fmt cls =
     (bound ''reader'' (registered rs) fmt cls \<or> bound ''writer'' (registered rs) fmt cls)"
proof (intro conjI allI impI)
  fix format_dict format_class
  assume a: "formats (registered rs) fmt = Some format_dict \<and> format_dict cls = Some format_class"
  with slots_filled_registered[of rs]
  show 1: "format_class ''reader'' \<noteq> None \<or> format_class ''writer'' \<noteq> None"
    unfolding slots_filled_def by blast
  then show "format_class \<noteq> Map.empty" by auto
next
  show "has_class (registered rs) fmt cls =
     (bound ''reader'' (registered rs) fmt cls \<or> bound ''writer'' (registered rs) fmt cls)"
    by (rule has_class_bound[OF slots_filled_registered])
qed

theorem registered_slots_filled_witness:
  "\<exists>format_dict format_class.
     formats (registered [Register_writer ''fasta'' [Some ''Sequence'']
                            (\<lambda>a c p. (Inr PyNone, c, p))]) ''fasta'' = Some format_dict \<and>
     format_dict (Some ''Sequence'') = Some format_class \<and>
     format_class \<noteq> Map.empty \<and>
     (format_class ''reader'' \<noteq> None \<or> format_class ''writer'' \<noteq> None)"
proof -
  let ?f = "\<lambda>a c p. (Inr PyNone, c, p) :: (error + pyval) \<times> string \<times> nat"
  let ?R = "registered [Register_writer ''fasta'' [Some ''Sequence''] ?f]"
  have "\<exists>format_dict format_class.
      formats ?R ''fasta'' = Some format_dict \<and> format_dict (Some ''Sequence'') = Some format_class"
    by (simp add: registered_def decorate_def register_writer_def rw_decorator_def
          decorator_def empty_registry_def)
  then obtain format_dict format_class where
    slot: "formats ?R ''fasta'' = Some format_dict \<and>
           format_dict (Some ''Sequence'') = Some format_class"
    by blast
  with registered_slots_filled[of "[Register_writer ''fasta'' [Some ''Sequence''] ?f]"
      "''fasta''" "Some ''Sequence''"]
  have "format_class \<noteq> Map.empty \<and>
        (format_class ''reader'' \<noteq> None \<or> format_class ''writer'' \<noteq> None)"
    by blast
  with slot show ?thesis by blast
qed

section \<open>Guessing the format\<close>

lemma skip_iff_not_tried:
  "(cls \<noteq> None \<and>
     (case formats reg fmt of None \<Rightarrow> True | Some format_dict \<Rightarrow> format_dict cls = None))
   = (\<not> tried reg cls fmt)"
  by (auto simp: tried_def has_class_def split: option.splits)

lemma guess_format_loop_Cons:
  "guess_format_loop reg cls ((fmt, test) # rest) possibles fh =
     (if \<not> tried reg cls fmt
      then guess_format_loop reg cls rest possibles fh
      else let (verdict, p) = test (contents fh) (pos fh);
               fh1 = fh\<lparr>pos := p, passed_to := passed_to fh @ [Identifier_call fmt (pos fh) verdict]\<rparr>;
               possibles1 = (if verdict then possibles @ [fmt] else possibles)
           in guess_format_loop reg cls rest possibles1 (seek fh1 0))"
  by (simp only: guess_format_loop.simps skip_iff_not_tried)

lemma guess_format_loop_eq:
  "pos fh = 0 \<Longrightarrow>
   guess_format_loop reg cls ids possibles fh =
     (possibles @ map fst (filter (\<lambda>(fmt, test). tried reg cls fmt \<and> fst (test (contents fh) 0)) ids),
      fh\<lparr>passed_to := passed_to fh @
            map (\<lambda>(fmt, test). Identifier_call fmt 0 (fst (test (contents fh) 0)))
              (filter (\<lambda>(fmt, test). tried reg cls fmt) ids)\<rparr>)"
proof (induction ids arbitrary: possibles fh)
  case Nil
  then show ?case by simp
next
  case (Cons a ids)
  obtain fmt test where a: "a = (fmt, test)" by (cases a)
  show ?case
  proof (cases "tried reg cls fmt")
    case False
    then show ?thesis using Cons.IH[OF Cons.prems]
      by (simp add: a guess_format_loop_Cons del: guess_format_loop.simps)
  next
    case True
    obtain verdict p where t: "test (contents fh) 0 = (verdict, p)" by (cases "test (contents fh) 0")
    let ?fh1 = "fh\<lparr>passed_to := passed_to fh @ [Identifier_call fmt 0 verdict]\<rparr>"
    have s: "seek (fh\<lparr>pos := p, passed_to := passed_to fh @ [Identifier_call fmt 0 verdict]\<rparr>) 0
        = ?fh1"
      using Cons.prems by (simp add: seek_def)
    have p1: "pos ?fh1 = 0" using Cons.prems by simp
    show ?thesis
      using Cons.IH[OF p1] True t s Cons.prems
      by (simp add: a guess_format_loop_Cons del: guess_format_loop.simps)
  qed
qed

text \<open>
  C4: for every stream and every registry, \<^verbatim>\<open>guess_format\<close> decides on the formats
  whose identifier gave a positive verdict: none is an identification failure (the format
  cannot be guessed), exactly one is the result, two or more are an identification failure
  that names all of them.
\<close>

theorem guess_format_decision:
  "fst (guess_format reg fp cls) =
     (case matches reg cls (contents (fst (get_filehandle fp))) of
        [] \<Rightarrow> Inl FormatIdentificationError_cannot_guess
      | [fmt] \<Rightarrow> Inr fmt
      | fmts \<Rightarrow> Inl (FormatIdentificationError_ambiguous fmts))"
proof -
  obtain fh own where g: "get_filehandle fp = (fh, own)" by (cases "get_filehandle fp")
  define m where "m = matches reg cls (contents fh)"
  have p: "pos (seek fh 0) = 0" by (simp add: seek_def)
  have c: "contents (seek fh 0) = contents fh" by (simp add: seek_def)
  obtain fh1 where l: "guess_format_loop reg cls (identifiers reg) [] (seek fh 0) = (m, fh1)"
    by (simp add: guess_format_loop_eq[OF p] c matches_def m_def)
  have r: "fst (guess_format reg fp cls) =
      (if m = [] then Inl FormatIdentificationError_cannot_guess
       else if length m > 1 then Inl (FormatIdentificationError_ambiguous m)
       else Inr (m ! 0))"
    by (simp add: guess_format_def open_file_def g l)
  show ?thesis
  proof (cases m)
    case Nil
    then show ?thesis using r by (simp add: g m_def[symmetric])
  next
    case (Cons x xs)
    then show ?thesis using r by (cases xs) (simp_all add: g m_def[symmetric])
  qed
qed

lemma tried_registered:
  "tried (registered rs) cls fmt =
     (cls = None \<or> bound ''reader'' (registered rs) fmt cls \<or> bound ''writer'' (registered rs) fmt cls)"
  by (simp add: tried_def has_class_bound[OF slots_filled_registered])

text \<open>
  C5: during \<^verbatim>\<open>guess_format\<close> with a class, the identifiers that are called are exactly
  those of the formats with a reader or a writer bound to the class (all of them when no
  class is given), in the order of the registry. Each is applied to the stream at
  position 0, wherever the one before left it: the verdict recorded for it is the one it
  gives there, and the result of \<^verbatim>\<open>guess_format\<close> is decided on these verdicts and on
  no other. The stream is left at position 0.
\<close>

theorem guess_format_invocations:
  "passed_to (snd (guess_format (registered rs) fp cls)) =
     passed_to (fst (get_filehandle fp)) @
     map (\<lambda>(fmt, test). Identifier_call fmt 0 (fst (test (contents (fst (get_filehandle fp))) 0)))
       (filter (\<lambda>(fmt, test). cls = None \<or> bound ''reader'' (registered rs) fmt cls
                                \<or> bound ''writer'' (registered rs) fmt cls)
          (identifiers (registered rs))) \<and>
   fst (guess_format (registered rs) fp cls) =
     (case map fst
             (filter (\<lambda>(fmt, test). (cls = None \<or> bound ''reader'' (registered rs) fmt cls
                                       \<or> bound ''writer'' (registered rs) fmt cls) \<and>
                                     fst (test (contents (fst (get_filehandle fp))) 0))
                (identifiers (registered rs))) of
        [] \<Rightarrow> Inl FormatIdentificationError_cannot_guess
      | [fmt] \<Rightarrow> Inr fmt
      | fmts \<Rightarrow> Inl (FormatIdentificationError_ambiguous fmts)) \<and>
   pos (snd (guess_format (registered rs) fp cls)) = 0"
proof -
  let ?R = "registered rs"
  obtain fh own where g: "get_filehandle fp = (fh, own)" by (cases "get_filehandle fp")
  define applicable where
    "applicable = (\<lambda>fmt. cls = None \<or> bound ''reader'' ?R fmt cls \<or> bound ''writer'' ?R fmt cls)"
  define m where
    "m = map fst (filter (\<lambda>(fmt, test). applicable fmt \<and> fst (test (contents fh) 0))
                    (identifiers ?R))"
  define calls where
    "calls = map (\<lambda>(fmt, test). Identifier_call fmt 0 (fst (test (contents fh) 0)))
               (filter (\<lambda>(fmt, test). applicable fmt) (identifiers ?R))"
  have t: "tried ?R cls = applicable"
    by (rule ext) (simp add: tried_registered applicable_def)
  have p: "pos (seek fh 0) = 0" by (simp add: seek_def)
  have c: "contents (seek fh 0) = contents fh" "passed_to (seek fh 0) = passed_to fh"
    by (simp_all add: seek_def)
  have l: "guess_format_loop ?R cls (identifiers ?R) [] (seek fh 0) =
      (m, (seek fh 0)\<lparr>passed_to := passed_to fh @ calls\<rparr>)"
    by (simp add: guess_format_loop_eq[OF p] c t m_def calls_def)
  have r: "fst (guess_format ?R fp cls) =
      (if m = [] then Inl FormatIdentificationError_cannot_guess
       else if length m > 1 then Inl (FormatIdentificationError_ambiguous m)
       else Inr (m ! 0))"
    by (simp add: guess_format_def open_file_def g l)
  have 1: "passed_to (snd (guess_format ?R fp cls)) = passed_to fh @ calls"
    by (simp add: guess_format_def open_file_def g l close_def)
  have 2: "fst (guess_format ?R fp cls) =
      (case m of
         [] \<Rightarrow> Inl FormatIdentificationError_cannot_guess
       | [fmt] \<Rightarrow> Inr fmt
       | fmts \<Rightarrow> Inl (FormatIdentificationError_ambiguous fmts))"
  proof (cases m)
    case Nil
    then show ?thesis using r by simp
  next
    case (Cons x xs)
    then show ?thesis using r by (cases xs) simp_all
  qed
  have 3: "pos (snd (guess_format ?R fp cls)) = 0"
    by (simp add: guess_format_def open_file_def g l close_def p)
  from 1 2 3 show ?thesis
    by (simp add: g m_def calls_def applicable_def)
qed

text \<open>
  Three identifiers: \<open>a\<close> says no and leaves the stream at 3, \<open>b\<close> says yes only at
  position 0, \<open>c\<close> says yes anywhere. Only \<open>a\<close> and \<open>b\<close> have a reader or writer for
  the class, so \<open>c\<close> is not called, \<open>b\<close> finds the stream at 0, and the format is \<open>b\<close>.
\<close>

theorem guess_format_invocations_witness:
  "passed_to (snd (guess_format
      (registered
        [Register_identifier ''a'' (\<lambda>c p. (False, 3)),
         Register_identifier ''b'' (\<lambda>c p. (p = 0, 5)),
         Register_identifier ''c'' (\<lambda>c p. (True, 7)),
         Register_reader ''a'' [Some ''Sequence''] (\<lambda>a c p. (Inr PyNone, c, p)),
         Register_writer ''b'' [Some ''Sequence''] (\<lambda>a c p. (Inr PyNone, c, p))])
      (Filepath ''ACGT'') (Some ''Sequence'')))
     = [Identifier_call ''a'' 0 False, Identifier_call ''b'' 0 True] \<and>
   fst (guess_format
      (registered
        [Register_identifier ''a'' (\<lambda>c p. (False, 3)),
         Register_identifier ''b'' (\<lambda>c p. (p = 0, 5)),
         Register_identifier ''c'' (\<lambda>c p. (True, 7)),
         Register_reader ''a'' [Some ''Sequence''] (\<lambda>a c p. (Inr PyNone, c, p)),
         Register_writer ''b'' [Some ''Sequence''] (\<lambda>a c p. (Inr PyNone, c, p))])
      (Filepath ''ACGT'') (Some ''Sequence''))
     = Inr ''b''"
proof -
  let ?f = "\<lambda>a c p. (Inr PyNone, c, p) :: (error + pyval) \<times> string \<times> nat"
  let ?rs = "[Register_identifier ''a'' (\<lambda>c p. (False, 3)),
              Register_identifier ''b'' (\<lambda>c p. (p = 0, 5)),
              Register_identifier ''c'' (\<lambda>c p. (True, 7)),
              Register_reader ''a'' [Some ''Sequence''] ?f,
              Register_writer ''b'' [Some ''Sequence''] ?f]"
  have ids: "identifiers (registered ?rs) =
      [(''a'', \<lambda>c p. (False, 3)), (''b'', \<lambda>c p. (p = 0, 5)), (''c'', \<lambda>c p. (True, 7))]"
    by (simp add: registered_def register_identifier_def decorate_def register_reader_def
          register_writer_def rw_decorator_def decorator_def empty_registry_def Let_def)
  have b: "bound ''reader'' (registered ?rs) ''a'' (Some ''Sequence'')"
          "bound ''writer'' (registered ?rs) ''b'' (Some ''Sequence'')"
          "\<not> bound ''reader'' (registered ?rs) ''b'' (Some ''Sequence'')"
          "\<not> bound ''reader'' (registered ?rs) ''c'' (Some ''Sequence'')"
          "\<not> bound ''writer'' (registered ?rs) ''c'' (Some ''Sequence'')"
    by (simp_all add: bound_def rw_getter_def registered_def register_identifier_def
          decorate_def register_reader_def register_writer_def rw_decorator_def decorator_def
          empty_registry_def Let_def)
  from guess_format_invocations[of ?rs "Filepath ''ACGT''" "Some ''Sequence''"]
  show ?thesis by (simp add: ids b get_filehandle_def)
qed

section \<open>Writing\<close>

text \<open>
  C8: \<^verbatim>\<open>write\<close> with a format and a path, when no writer is registered for the format and
  the class of the object, raises the no-such-writer failure, and the stream opened from
  the path has been closed (once) when the failure propagates.
\<close>

theorem write_without_writer:
  "get_writer format [Some (class_of obj)] reg = Inr None \<Longrightarrow>
   write_obj reg obj (Some format) (Some (Filepath c)) args =
     (Inl (FileFormatError_no_writer format),
      Some \<lparr>contents = c, pos = 0, close_calls = 1, passed_to = []\<rparr>)"
  by (simp add: write_obj_def open_file_def get_filehandle_def close_def)

theorem write_without_writer_witness:
  "get_writer ''fasta'' [Some (class_of (Instance ''Sequence'' ''ACGT''))] empty_registry = Inr None \<and>
   write_obj empty_registry (Instance ''Sequence'' ''ACGT'') (Some ''fasta'') (Some (Filepath ''''))
       [] =
     (Inl (FileFormatError_no_writer ''fasta''),
      Some \<lparr>contents = '''', pos = 0, close_calls = 1, passed_to = []\<rparr>)"
proof -
  have h: "get_writer ''fasta'' [Some (class_of (Instance ''Sequence'' ''ACGT''))] empty_registry
      = Inr None"
    by (simp add: get_writer_def rw_getter_def empty_registry_def)
  from h write_without_writer[OF h, of "''''" "[]"] show ?thesis by simp
qed

section \<open>Reading\<close>

subsection \<open>The reader of a lazy sequence is called at the first pull\<close>

lemma yield_next_frame: "wg_frame (fst (snd (yield_next w v fh))) \<noteq> Created"
  by (simp add: yield_next_def split: pyval.splits gen.splits)

lemma yield_next_calls: "reader_calls (snd (snd (yield_next w v fh))) = reader_calls fh"
  by (simp add: yield_next_def finally_clause_def close_def reader_calls_def
      split: pyval.splits gen.splits)

lemma wrapper_next_started:
  "wg_frame w \<noteq> Created \<Longrightarrow>
   wg_frame (fst (snd (wrapper_next w fh))) \<noteq> Created \<and>
   reader_calls (snd (snd (wrapper_next w fh))) = reader_calls fh"
  by (cases "wg_frame w") (simp_all add: wrapper_next_def yield_next_frame yield_next_calls)

lemma reader_calls_passed:
  "reader_calls (fh\<lparr>contents := c, pos := p, passed_to := passed_to fh @ [Reader_call q]\<rparr>)
     = Suc (reader_calls fh)"
  by (simp add: reader_calls_def)

lemma wrapper_next_created:
  "wg_frame w = Created \<Longrightarrow>
   wg_frame (fst (snd (wrapper_next w fh))) \<noteq> Created \<and>
   reader_calls (snd (snd (wrapper_next w fh))) = Suc (reader_calls fh)"
  by (auto simp: wrapper_next_def Let_def yield_next_frame yield_next_calls reader_calls_passed
      split: prod.splits sum.splits)

lemma pulls_started:
  "wg_frame w \<noteq> Created \<Longrightarrow> reader_calls (snd (pulls n w fh)) = reader_calls fh"
proof (induction n arbitrary: w fh)
  case 0
  then show ?case by simp
next
  case (Suc n)
  obtain s w1 fh1 where st: "wrapper_next w fh = (s, w1, fh1)" by (cases "wrapper_next w fh")
  from wrapper_next_started[OF Suc.prems, of fh] st
  have "wg_frame w1 \<noteq> Created" "reader_calls fh1 = reader_calls fh" by simp_all
  with Suc.IH[of w1 fh1] st show ?case by simp
qed

lemma pulls_created:
  "wg_frame w = Created \<Longrightarrow>
   reader_calls (snd (pulls n w fh)) = reader_calls fh + (if n = 0 then 0 else 1)"
proof (cases n)
  case 0
  then show ?thesis by simp
next
  case (Suc m)
  assume c: "wg_frame w = Created"
  obtain s w1 fh1 where st: "wrapper_next w fh = (s, w1, fh1)" by (cases "wrapper_next w fh")
  from wrapper_next_created[OF c, of fh] st
  have "wg_frame w1 \<noteq> Created" "reader_calls fh1 = Suc (reader_calls fh)" by simp_all
  with pulls_started[of w1 m fh1] st Suc show ?thesis by simp
qed

text \<open>
  C10: \<^verbatim>\<open>read\<close> without \<^verbatim>\<open>into\<close> looks the reader up before it returns, and fails
  there if there is none; when it returns the lazy sequence the handle is as it was
  acquired, so the reader has not been called. Pulling from the sequence calls the reader
  once, at the first pull, and never again.
\<close>

theorem streaming_read_is_lazy:
  "read reg fp (Some format) None args =
     (case get_reader format [None] reg of
        Inr (Some reader) \<Rightarrow>
          (Inr (Lazy \<lparr>wg_reader = reader, wg_args = args,
                      wg_is_own = snd (get_filehandle fp), wg_frame = Created\<rparr>),
           Some (fst (get_filehandle fp)))
      | Inr None \<Rightarrow>
          (Inl (FileFormatError_no_reader format ''generator''), Some (fst (get_filehandle fp)))
      | Inl e \<Rightarrow> (Inl e, Some (fst (get_filehandle fp)))) \<and>
   reader_calls
     (snd (pulls n \<lparr>wg_reader = reader, wg_args = args, wg_is_own = own, wg_frame = Created\<rparr> fh))
     = reader_calls fh + (if n = 0 then 0 else 1)"
proof
  show "read reg fp (Some format) None args =
     (case get_reader format [None] reg of
        Inr (Some reader) \<Rightarrow>
          (Inr (Lazy \<lparr>wg_reader = reader, wg_args = args,
                      wg_is_own = snd (get_filehandle fp), wg_frame = Created\<rparr>),
           Some (fst (get_filehandle fp)))
      | Inr None \<Rightarrow>
          (Inl (FileFormatError_no_reader format ''generator''), Some (fst (get_filehandle fp)))
      | Inl e \<Rightarrow> (Inl e, Some (fst (get_filehandle fp))))"
    by (simp add: read_def split: prod.splits sum.splits option.splits)
next
  show "reader_calls
     (snd (pulls n \<lparr>wg_reader = reader, wg_args = args, wg_is_own = own, wg_frame = Created\<rparr> fh))
     = reader_calls fh + (if n = 0 then 0 else 1)"
    by (rule pulls_created) simp
qed

subsection \<open>Closing the stream of a lazy sequence\<close>

text \<open>
  Pulling closes the stream at most once, and a finished wrapper does nothing more.
\<close>

lemma yield_next_closes:
  "close_calls fh \<le> close_calls (snd (snd (yield_next w v fh))) \<and>
   close_calls (snd (snd (yield_next w v fh))) \<le> Suc (close_calls fh) \<and>
   (wg_frame (fst (snd (yield_next w v fh))) \<noteq> Finished \<longrightarrow>
      close_calls (snd (snd (yield_next w v fh))) = close_calls fh)"
  by (simp add: yield_next_def finally_clause_def close_def split: pyval.splits gen.splits)

lemma wrapper_next_finished:
  "wg_frame w = Finished \<Longrightarrow> wrapper_next w fh = (StopIteration, w, fh)"
  by (simp add: wrapper_next_def)

lemma pulls_finished: "wg_frame w = Finished \<Longrightarrow> pulls n w fh = (w, fh)"
  by (induction n) (simp_all add: wrapper_next_finished)

lemma close_calls_passed:
  "close_calls (fh\<lparr>contents := c, pos := p, passed_to := q\<rparr>) = close_calls fh"
  by simp

lemma wrapper_next_closes:
  "close_calls (snd (snd (wrapper_next w fh))) \<le> Suc (close_calls fh) \<and>
   (wg_frame (fst (snd (wrapper_next w fh))) \<noteq> Finished \<longrightarrow>
      close_calls (snd (snd (wrapper_next w fh))) = close_calls fh)"
proof (cases "wg_frame w")
  case Created
  obtain r c p where r: "wg_reader w (wg_args w) (contents fh) (pos fh) = (r, c, p)"
    by (cases "wg_reader w (wg_args w) (contents fh) (pos fh)")
  let ?fh1 = "fh\<lparr>contents := c, pos := p, passed_to := passed_to fh @ [Reader_call (pos fh)]\<rparr>"
  show ?thesis
  proof (cases r)
    case (Inl e)
    then show ?thesis using Created r by (simp add: wrapper_next_def)
  next
    case (Inr v)
    then show ?thesis using Created r yield_next_closes[of ?fh1 w v]
      by (simp add: wrapper_next_def)
  qed
next
  case (Suspended g)
  then show ?thesis using yield_next_closes[of fh w "Generator g"]
    by (simp add: wrapper_next_def)
next
  case Finished
  then show ?thesis by (simp add: wrapper_next_def)
qed

lemma pulls_closes_at_most_once:
  "close_calls (snd (pulls n w fh)) \<le> Suc (close_calls fh)"
proof (induction n arbitrary: w fh)
  case 0
  then show ?case by simp
next
  case (Suc n)
  obtain s w1 fh1 where st: "wrapper_next w fh = (s, w1, fh1)" by (cases "wrapper_next w fh")
  show ?case
  proof (cases "wg_frame w1 = Finished")
    case True
    then show ?thesis using st wrapper_next_closes[of w fh] by (simp add: pulls_finished)
  next
    case False
    then have "close_calls fh1 = close_calls fh" using st wrapper_next_closes[of w fh] by simp
    then show ?thesis using st Suc.IH[of w1 fh1] by simp
  qed
qed

text \<open>
  C3: the stream that \<^verbatim>\<open>read\<close> opened from a path for a lazy sequence is released
  exactly once, when the sequence is exhausted or when pulling an element raises.
  Evaluated here for a registered reader that raises when it is called: the first pull
  raises, the wrapper is finished, and the stream has not been closed, then or after
  further pulls.
\<close>

theorem streaming_reader_call_failure_leaks:
  "(case read (registered [Register_reader ''fasta'' []
                             (\<lambda>a c p. (Inl (Raised ''boom''), c, p))])
              (Filepath ''ACGT'') (Some ''fasta'') None [] of
      (Inr (Lazy w), Some fh) \<Rightarrow>
        wg_is_own w \<and> close_calls fh = 0 \<and>
        (case wrapper_next w fh of
           (s, w1, fh1) \<Rightarrow>
             s = Raises (Raised ''boom'') \<and> wg_frame w1 = Finished \<and> close_calls fh1 = 0 \<and>
             close_calls (snd (pulls 3 w1 fh1)) = 0)
    | _ \<Rightarrow> False)"
  by (simp add: read_def get_filehandle_def get_reader_def rw_getter_def empty_registry_def
        registered_def decorate_def register_reader_def rw_decorator_def decorator_def
        wrapper_next_def numeral_3_eq_3)

subsection \<open>A failing read\<close>

text \<open>
  Whenever \<^verbatim>\<open>read\<close> of a path fails after it opened the stream, the stream has not
  been closed.
\<close>

lemma guess_format_borrowed:
  "close_calls (snd (guess_format reg (Fileobject fh) cls)) = close_calls fh"
proof -
  have p: "pos (seek fh 0) = 0" by (simp add: seek_def)
  show ?thesis
    by (simp add: guess_format_def open_file_def get_filehandle_def guess_format_loop_eq[OF p])
       (simp add: seek_def)
qed

lemma read_failure_never_closes:
  "read reg (Filepath c) format into args = (Inl e, Some fh) \<Longrightarrow> close_calls fh = 0"
proof -
  assume a: "read reg (Filepath c) format into args = (Inl e, Some fh)"
  let ?fh0 = "\<lparr>contents = c, pos = 0, close_calls = 0, passed_to = []\<rparr>"
  have g: "close_calls (snd (guess_format reg (Fileobject ?fh0) into)) = 0"
    by (simp add: guess_format_borrowed)
  from a g show ?thesis
    by (auto simp: read_def get_filehandle_def Let_def
        split: if_splits option.splits sum.splits prod.splits)
qed

text \<open>
  C1: when \<^verbatim>\<open>read\<close> of a path fails after the stream is acquired, the stream is released
  before the failure propagates. Evaluated here on the three failures: no reader for the
  format and class, no format guessed, and a reader that raises when \<^verbatim>\<open>into\<close> is given;
  each time the handle is left with no call of \<^verbatim>\<open>close()\<close>.
\<close>

theorem read_failure_leaks_owned_stream:
  "read empty_registry (Filepath ''ACGT'') (Some ''fasta'') (Some ''Sequence'') [] =
     (Inl (FileFormatError_no_reader ''fasta'' ''Sequence''),
      Some \<lparr>contents = ''ACGT'', pos = 0, close_calls = 0, passed_to = []\<rparr>) \<and>
   read empty_registry (Filepath ''ACGT'') None (Some ''Sequence'') [] =
     (Inl FormatIdentificationError_cannot_guess,
      Some \<lparr>contents = ''ACGT'', pos = 0, close_calls = 0, passed_to = []\<rparr>) \<and>
   read (registered [Register_reader ''fasta'' [Some ''Sequence'']
                       (\<lambda>a c p. (Inl (Raised ''boom''), c, p))])
        (Filepath ''ACGT'') (Some ''fasta'') (Some ''Sequence'') [] =
     (Inl (Raised ''boom''),
      Some \<lparr>contents = ''ACGT'', pos = 0, close_calls = 0, passed_to = [Reader_call 0]\<rparr>)"
  by (simp add: read_def get_filehandle_def get_reader_def rw_getter_def empty_registry_def
        guess_format_def open_file_def seek_def registered_def decorate_def register_reader_def
        rw_decorator_def decorator_def)

end
